theory Spec2Isabelle
  imports Main "HOL-Library.Word" "HOL-Library.Char_ord" "HOL-Library.List_Lexorder"
    "HOL-Library.Product_Lexorder" "HOL-Library.Multiset" "HOL-Library.AList"
begin

unbundle bit_operations_syntax

section \<open>The persistence layer of the cookie jar (serialize.go)\<close>

text \<open>
  The theory embeds \<^verbatim>\<open>serialize.go\<close>: \<^verbatim>\<open>save\<close>, \<^verbatim>\<open>load\<close>,
  \<^verbatim>\<open>mergeFrom\<close>, \<^verbatim>\<open>writeTo\<close>, \<^verbatim>\<open>allPersistentEntries\<close>,
  \<^verbatim>\<open>lockNameFromPath\<close> and \<^verbatim>\<open>lockFile\<close>. Go strings are byte strings
  (\<^typ>\<open>string\<close>), instants are integers, a Go map is an association list with distinct
  keys whose list order is the order in which \<^verbatim>\<open>range\<close> happens to visit it, and a
  Go slice is an optional list (\<^term>\<open>None\<close> is the nil slice).
\<close>

subsection \<open>SHA-256 and URL-safe base64 (crypto/sha256, encoding/base64)\<close>

text \<open>
  The two library functions \<^verbatim>\<open>lockNameFromPath\<close> calls, written out after FIPS 180-4
  and RFC 4648 section 5 (Go's \<^verbatim>\<open>base64.URLEncoding\<close> pads with \<^verbatim>\<open>=\<close>).
\<close>

type_synonym byte = "8 word"
type_synonym w32 = "32 word"

text \<open>
  The constants of the standard: the first 32 bits of the fractional parts of the cube
  roots of the first 64 primes, and of the square roots of the first 8 primes for the
  initial hash value. \<open>iroot k n\<close> is the integer \<open>k\<close>-th root of \<open>n\<close>, found by bisection.
\<close>

fun bisect :: "nat \<Rightarrow> nat \<Rightarrow> int \<Rightarrow> int \<Rightarrow> int \<Rightarrow> int" where
  "bisect 0 k n lo hi = lo"
| "bisect (Suc fuel) k n lo hi =
     (if hi - lo \<le> 1 then lo
      else let mid = (lo + hi) div 2
           in if mid ^ k \<le> n then bisect fuel k n mid hi else bisect fuel k n lo mid)"

definition iroot :: "nat \<Rightarrow> int \<Rightarrow> int" where
  "iroot k n = bisect 64 k n 0 (2 ^ 48)"

definition first_primes :: "int list" where
  "first_primes =
     map int (filter (\<lambda>n. list_all (\<lambda>d. n mod d \<noteq> 0) [2..<n]) [2..<312])"

definition sha256_K :: "w32 list" where
  "sha256_K = map (\<lambda>p. word_of_int (iroot 3 (p * 2 ^ 96))) first_primes"

type_synonym sha_state = "w32 \<times> w32 \<times> w32 \<times> w32 \<times> w32 \<times> w32 \<times> w32 \<times> w32"

definition sha256_H :: "nat \<Rightarrow> w32" where
  "sha256_H i = word_of_int (iroot 2 (first_primes ! i * 2 ^ 64))"

definition sha256_init :: sha_state where
  "sha256_init = (sha256_H 0, sha256_H 1, sha256_H 2, sha256_H 3,
                  sha256_H 4, sha256_H 5, sha256_H 6, sha256_H 7)"

definition be32 :: "byte list \<Rightarrow> w32" where
  "be32 bs = foldl (\<lambda>acc b. push_bit 8 acc OR ucast b) 0 bs"

definition bytes32 :: "w32 \<Rightarrow> byte list" where
  "bytes32 w = [ucast (drop_bit 24 w), ucast (drop_bit 16 w), ucast (drop_bit 8 w), ucast w]"

definition bytes64 :: "64 word \<Rightarrow> byte list" where
  "bytes64 w = map (\<lambda>i. ucast (drop_bit (56 - 8 * i) w)) [0..<8]"

definition sha256_pad :: "byte list \<Rightarrow> byte list" where
  "sha256_pad m =
     m @ [0x80] @ replicate ((119 - length m mod 64) mod 64) 0 @ bytes64 (8 * of_nat (length m))"

definition sha256_schedule :: "byte list \<Rightarrow> w32 list" where
  "sha256_schedule blk =
     foldl (\<lambda>ws t.
        let s0 = word_rotr 7 (ws ! (t - 15)) XOR word_rotr 18 (ws ! (t - 15))
                   XOR drop_bit 3 (ws ! (t - 15));
            s1 = word_rotr 17 (ws ! (t - 2)) XOR word_rotr 19 (ws ! (t - 2))
                   XOR drop_bit 10 (ws ! (t - 2))
        in ws @ [ws ! (t - 16) + s0 + ws ! (t - 7) + s1])
       (map (\<lambda>i. be32 (take 4 (drop (4 * i) blk))) [0..<16]) [16..<64]"

definition sha256_round :: "w32 list \<Rightarrow> sha_state \<Rightarrow> nat \<Rightarrow> sha_state" where
  "sha256_round ws st t =
     (case st of (a, b, c, d, e, f, g, h) \<Rightarrow>
        let S1 = word_rotr 6 e XOR word_rotr 11 e XOR word_rotr 25 e;
            ch = (e AND f) XOR (NOT e AND g);
            t1 = h + S1 + ch + sha256_K ! t + ws ! t;
            S0 = word_rotr 2 a XOR word_rotr 13 a XOR word_rotr 22 a;
            maj = (a AND b) XOR (a AND c) XOR (b AND c);
            t2 = S0 + maj
        in (t1 + t2, a, b, c, d + t1, e, f, g))"

definition sha256_block :: "sha_state \<Rightarrow> byte list \<Rightarrow> sha_state" where
  "sha256_block st blk =
     (case st of (a, b, c, d, e, f, g, h) \<Rightarrow>
        (case foldl (sha256_round (sha256_schedule blk)) st [0..<64] of
           (a', b', c', d', e', f', g', h') \<Rightarrow>
             (a + a', b + b', c + c', d + d', e + e', f + f', g + g', h + h')))"

definition sha256 :: "byte list \<Rightarrow> byte list" where
  "sha256 m =
     (let p = sha256_pad m;
          blocks = map (\<lambda>i. take 64 (drop (64 * i) p)) [0..<length p div 64]
      in case foldl sha256_block sha256_init blocks of
           (a, b, c, d, e, f, g, h) \<Rightarrow>
             concat (map bytes32 [a, b, c, d, e, f, g, h]))"

definition encodeURL :: string where
  "encodeURL = ''ABCDEFGHIJKLMNOPQRSTUVWXYZabcdefghijklmnopqrstuvwxyz0123456789-_''"

definition b64char :: "byte \<Rightarrow> char" where
  "b64char v = encodeURL ! unat (v AND 0x3F)"

fun base64_URLEncoding :: "byte list \<Rightarrow> string" where
  "base64_URLEncoding (a # b # c # rest) =
     [b64char (drop_bit 2 a),
      b64char (push_bit 4 a OR drop_bit 4 b),
      b64char (push_bit 2 b OR drop_bit 6 c),
      b64char c] @ base64_URLEncoding rest"
| "base64_URLEncoding [a, b] =
     [b64char (drop_bit 2 a), b64char (push_bit 4 a OR drop_bit 4 b),
      b64char (push_bit 2 b), CHR ''='']"
| "base64_URLEncoding [a] =
     [b64char (drop_bit 2 a), b64char (push_bit 4 a), CHR ''='', CHR ''='']"
| "base64_URLEncoding [] = []"

definition bytes_of :: "string \<Rightarrow> byte list" where
  "bytes_of s = map of_char s"

subsection \<open>Errors\<close>

datatype error =
    EmptyPath         \<comment> \<open>\<^verbatim>\<open>errors.New("path cannot be empty")\<close>\<close>
  | LockTimeout       \<comment> \<open>"file locked for too long; giving up", wrapping the last failure\<close>
  | OpenFailed        \<comment> \<open>\<^verbatim>\<open>os.OpenFile\<close> or \<^verbatim>\<open>os.Open\<close> failed (other than not-exist)\<close>
  | TruncateFailed    \<comment> \<open>"cannot truncate file"\<close>
  | SeekFailed
  | WriteFailed       \<comment> \<open>the encoder's write to the file failed\<close>
  | SyntaxError       \<comment> \<open>the decoder met bytes that are not JSON\<close>

subsection \<open>Lock name derivation\<close>

definition isAlnum :: "char \<Rightarrow> bool" where
  "isAlnum c \<longleftrightarrow>
     (CHR ''a'' \<le> c \<and> c \<le> CHR ''z'') \<or> (CHR ''0'' \<le> c \<and> c \<le> CHR ''9'')
       \<or> (CHR ''A'' \<le> c \<and> c \<le> CHR ''Z'')"

definition isLetter :: "char \<Rightarrow> bool" where
  "isLetter c \<longleftrightarrow>
     (CHR ''a'' \<le> c \<and> c \<le> CHR ''z'') \<or> (CHR ''A'' \<le> c \<and> c \<le> CHR ''Z'')"

text \<open>
  \<^verbatim>\<open>re.ReplaceAllLiteralString(s, ``)\<close> with \<^verbatim>\<open>re = [^a-z0-9A-Z]*\<close>: every run of
  characters outside the class is replaced by the empty string, so exactly the characters of
  the class remain.
\<close>

definition re_ReplaceAllLiteralString :: "string \<Rightarrow> string" where
  "re_ReplaceAllLiteralString s = filter isAlnum s"

definition lockNameFromPath :: "string \<Rightarrow> error + string" where
  "lockNameFromPath path =
     (if path = [] then Inl EmptyPath
      else
        let sha = base64_URLEncoding (sha256 (bytes_of path));
            path' = (if length path > 10 then drop (length path - 10) path else path)
        in Inr (re_ReplaceAllLiteralString (''L'' @ take 29 sha @ path')))"

text \<open>The spec's words: the last \<open>n\<close> characters of a string.\<close>

definition last_chars :: "nat \<Rightarrow> string \<Rightarrow> string" where
  "last_chars n s = rev (take n (rev s))"

subsection \<open>Records and the JSON document model\<close>

text \<open>
  Modelled from the spec: the record type \<^verbatim>\<open>entry\<close> is declared outside
  \<^verbatim>\<open>serialize.go\<close>, which reads only its field \<^verbatim>\<open>Persistent\<close>. The fields are
  those of the spec's data model: name, value, domain/origin, path, flag bits, the
  persistence flag, the expiry instant and the canonical group key.
\<close>

record entry =
  Name :: string
  Value :: string
  Origin :: string
  Path :: string
  Flags :: nat
  Expiry :: int
  Persistent :: bool
  CanonicalGroupKey :: string

definition zeroEntry :: entry where
  "zeroEntry = \<lparr>Name = [], Value = [], Origin = [], Path = [], Flags = 0, Expiry = 0,
                 Persistent = False, CanonicalGroupKey = []\<rparr>"

datatype json =
    JNull | JBool bool | JNum int | JStr string | JArr "json list" | JObj "(string \<times> json) list"

text \<open>
  What \<^verbatim>\<open>json.NewDecoder(r).Decode(&data)\<close> finds in a stream: nothing at all
  (\<^verbatim>\<open>io.EOF\<close>), bytes that are not a JSON value (a syntax error), or a first JSON value
  (what follows the first value is not read). A file is held as what the decoder finds in it.
\<close>

datatype content = Empty | Invalid | Doc json

text \<open>
  \<^verbatim>\<open>encoding/json\<close> on the record type: a struct is an object with one member per
  field, in declaration order; a nil slice is \<^verbatim>\<open>null\<close>, any other slice an array.
  Text is taken to be valid UTF-8, which the encoder writes as it is, and an instant is
  written as a whole number.
\<close>

definition marshalEntry :: "entry \<Rightarrow> json" where
  "marshalEntry e =
     JObj [(''Name'', JStr (Name e)), (''Value'', JStr (Value e)), (''Origin'', JStr (Origin e)),
           (''Path'', JStr (Path e)), (''Flags'', JNum (int (Flags e))),
           (''Expiry'', JNum (Expiry e)), (''Persistent'', JBool (Persistent e)),
           (''CanonicalGroupKey'', JStr (CanonicalGroupKey e))]"

definition json_Marshal :: "entry list option \<Rightarrow> json" where
  "json_Marshal s = (case s of None \<Rightarrow> JNull | Some es \<Rightarrow> JArr (map marshalEntry es))"

text \<open>
  Decoding into a field: \<^verbatim>\<open>null\<close> leaves the field as it is, a value of the field's
  kind is stored, anything else is an \<^verbatim>\<open>UnmarshalTypeError\<close>. Members are matched to
  fields by their exact names here; members that name no field are skipped.
\<close>

fun asString :: "json \<Rightarrow> string \<Rightarrow> string option" where
  "asString (JStr s) old = Some s"
| "asString JNull old = Some old"
| "asString _ old = None"

fun asBool :: "json \<Rightarrow> bool \<Rightarrow> bool option" where
  "asBool (JBool b) old = Some b"
| "asBool JNull old = Some old"
| "asBool _ old = None"

fun asInt :: "json \<Rightarrow> int \<Rightarrow> int option" where
  "asInt (JNum n) old = Some n"
| "asInt JNull old = Some old"
| "asInt _ old = None"

fun asNat :: "json \<Rightarrow> nat \<Rightarrow> nat option" where
  "asNat (JNum n) old = (if 0 \<le> n then Some (nat n) else None)"
| "asNat JNull old = Some old"
| "asNat _ old = None"

definition setField :: "entry \<Rightarrow> string \<times> json \<Rightarrow> entry option" where
  "setField e kv =
     (case kv of (k, v) \<Rightarrow>
        if k = ''Name'' then map_option (\<lambda>x. e\<lparr>Name := x\<rparr>) (asString v (Name e))
        else if k = ''Value'' then map_option (\<lambda>x. e\<lparr>Value := x\<rparr>) (asString v (Value e))
        else if k = ''Origin'' then map_option (\<lambda>x. e\<lparr>Origin := x\<rparr>) (asString v (Origin e))
        else if k = ''Path'' then map_option (\<lambda>x. e\<lparr>Path := x\<rparr>) (asString v (Path e))
        else if k = ''Flags'' then map_option (\<lambda>x. e\<lparr>Flags := x\<rparr>) (asNat v (Flags e))
        else if k = ''Expiry'' then map_option (\<lambda>x. e\<lparr>Expiry := x\<rparr>) (asInt v (Expiry e))
        else if k = ''Persistent'' then
          map_option (\<lambda>x. e\<lparr>Persistent := x\<rparr>) (asBool v (Persistent e))
        else if k = ''CanonicalGroupKey'' then
          map_option (\<lambda>x. e\<lparr>CanonicalGroupKey := x\<rparr>) (asString v (CanonicalGroupKey e))
        else Some e)"

fun setFields :: "entry \<Rightarrow> (string \<times> json) list \<Rightarrow> entry option" where
  "setFields e [] = Some e"
| "setFields e (kv # kvs) =
     (case setField e kv of None \<Rightarrow> None | Some e' \<Rightarrow> setFields e' kvs)"

fun unmarshalEntry :: "json \<Rightarrow> entry option" where
  "unmarshalEntry (JObj kvs) = setFields zeroEntry kvs"
| "unmarshalEntry JNull = Some zeroEntry"
| "unmarshalEntry _ = None"

fun unmarshalAll :: "json list \<Rightarrow> entry list option" where
  "unmarshalAll [] = Some []"
| "unmarshalAll (v # vs) =
     (case unmarshalEntry v of
        None \<Rightarrow> None
      | Some e \<Rightarrow> (case unmarshalAll vs of None \<Rightarrow> None | Some es \<Rightarrow> Some (e # es)))"

text \<open>
  \<^verbatim>\<open>json.Unmarshal(data, &entries)\<close> for \<^verbatim>\<open>var entries []entry\<close>: the outer
  \<^term>\<open>None\<close> is the error, the inner one the nil slice.
\<close>

fun json_Unmarshal :: "json \<Rightarrow> entry list option option" where
  "json_Unmarshal JNull = Some None"
| "json_Unmarshal (JArr vs) = map_option Some (unmarshalAll vs)"
| "json_Unmarshal _ = None"

subsection \<open>The in-memory store\<close>

type_synonym submap = "(string \<times> entry) list"
type_synonym entries_map = "(string \<times> submap) list"

record Jar =
  filename :: string
  entries :: entries_map

text \<open>
  Modelled from the spec: the store's conflict resolution is declared outside
  \<^verbatim>\<open>serialize.go\<close> and the spec leaves it application-specific. A policy gives the
  record key (the identity within a group) and says when a loaded record takes precedence
  over the one the store holds under the same identity.
\<close>

record policy =
  recordKey :: "entry \<Rightarrow> string"
  supersedes :: "entry \<Rightarrow> entry \<Rightarrow> bool"

definition sub_of :: "entries_map \<Rightarrow> string \<Rightarrow> submap" where
  "sub_of m k = (case map_of m k of None \<Rightarrow> [] | Some sub \<Rightarrow> sub)"

definition lookup :: "entries_map \<Rightarrow> string \<Rightarrow> string \<Rightarrow> entry option" where
  "lookup m k i = map_of (sub_of m k) i"

text \<open>
  Modelled from the spec: \<^verbatim>\<open>merge\<close> is declared outside \<^verbatim>\<open>serialize.go\<close>. Each
  loaded record goes under its identity (canonical group key, record key): into a free
  place always, over the record already there when the policy gives it precedence.
\<close>

definition merge1 :: "policy \<Rightarrow> entries_map \<Rightarrow> entry \<Rightarrow> entries_map" where
  "merge1 P m e =
     (let k = CanonicalGroupKey e; i = recordKey P e; sub = sub_of m k
      in case map_of sub i of
           None \<Rightarrow> AList.update k (AList.update i e sub) m
         | Some old \<Rightarrow>
             if supersedes P e old then AList.update k (AList.update i e sub) m else m)"

definition merge :: "policy \<Rightarrow> entry list option \<Rightarrow> Jar \<Rightarrow> Jar" where
  "merge P es j = j\<lparr>entries := foldl (merge1 P) (entries j) (case es of None \<Rightarrow> [] | Some l \<Rightarrow> l)\<rparr>"

text \<open>
  Modelled from the spec: \<^verbatim>\<open>deleteExpired\<close> is declared outside
  \<^verbatim>\<open>serialize.go\<close>. It purges the records whose expiry is at or before \<open>now\<close>.
\<close>

definition deleteExpired :: "int \<Rightarrow> Jar \<Rightarrow> Jar" where
  "deleteExpired now j =
     j\<lparr>entries := map (\<lambda>(k, sub). (k, filter (\<lambda>(i, e). now < Expiry e) sub)) (entries j)\<rparr>"

subsection \<open>The ordering policy and the sort\<close>

text \<open>
  Modelled from the spec: the \<^verbatim>\<open>Less\<close> method of \<^verbatim>\<open>byCanonicalHost\<close> is declared
  outside \<^verbatim>\<open>serialize.go\<close>. Primary key: the canonical group key, ascending as Go
  compares strings (bytewise); secondary key: the length of the path, ascending.
\<close>

definition byCanonicalHost_Less :: "entry \<Rightarrow> entry \<Rightarrow> bool" where
  "byCanonicalHost_Less e0 e1 =
     (if CanonicalGroupKey e0 \<noteq> CanonicalGroupKey e1
      then CanonicalGroupKey e0 < CanonicalGroupKey e1
      else length (Path e0) < length (Path e1))"

definition sortKey :: "entry \<Rightarrow> string \<times> nat" where
  "sortKey e = (CanonicalGroupKey e, length (Path e))"

text \<open>
  \<^verbatim>\<open>sort.Sort\<close> (package sort): \<^verbatim>\<open>insertionSort\<close>, the algorithm the package runs
  on a slice of fewer than 12 elements. For \<open>i = 1, 2, ...\<close> the element at \<open>i\<close> moves
  left while it is \<^verbatim>\<open>Less\<close> than its left neighbour. \<open>sift\<close> takes the sorted part
  before \<open>i\<close> in reverse, so that its head is the left neighbour. On a longer slice the
  package runs another algorithm, and promises of the result only what the general
  properties below use: it is a permutation of the slice in which no element is
  \<^verbatim>\<open>Less\<close> than an earlier one.
\<close>

fun sift :: "('a \<Rightarrow> 'a \<Rightarrow> bool) \<Rightarrow> 'a \<Rightarrow> 'a list \<Rightarrow> 'a list" where
  "sift lt x [] = [x]"
| "sift lt x (y # ys) = (if lt x y then y # sift lt x ys else x # y # ys)"

definition sort_Sort :: "('a \<Rightarrow> 'a \<Rightarrow> bool) \<Rightarrow> 'a list \<Rightarrow> 'a list" where
  "sort_Sort lt xs = rev (foldl (\<lambda>sorted_part x. sift lt x sorted_part) [] xs)"

subsection \<open>allPersistentEntries and writeTo\<close>

definition append_slice :: "'a list option \<Rightarrow> 'a \<Rightarrow> 'a list option" where
  "append_slice s x = (case s of None \<Rightarrow> Some [x] | Some xs \<Rightarrow> Some (xs @ [x]))"

definition collect_submap :: "entry list option \<Rightarrow> submap \<Rightarrow> entry list option" where
  "collect_submap acc sub =
     foldl (\<lambda>acc (i, e). if Persistent e then append_slice acc e else acc) acc sub"

definition allPersistentEntries :: "Jar \<Rightarrow> entry list option" where
  "allPersistentEntries j =
     map_option (sort_Sort byCanonicalHost_Less)
       (foldl (\<lambda>acc (k, sub). collect_submap acc sub) None (entries j))"

text \<open>\<^verbatim>\<open>writeTo\<close> hands the encoder's output to the writer; the value is what is written.\<close>

definition writeTo :: "Jar \<Rightarrow> content" where
  "writeTo j = Doc (json_Marshal (allPersistentEntries j))"

subsection \<open>mergeFrom, lockFile, save and load\<close>

datatype logmsg = CannotReadCookieFile error | DiscardingInvalidFormat

record world =
  files :: "string \<rightharpoonup> content"
  logs :: "logmsg list"

text \<open>
  What the operating system answers during one call: whether the named lock stays held by
  another process until the retry loop of \<^verbatim>\<open>lockFile\<close> gives up, and which file
  operations fail. A failed write leaves \<open>writeErr\<close>'s content in the file. The loop
  itself, which reads the wall clock and sleeps between the attempts of
  \<^verbatim>\<open>mutex.Acquire\<close>, is kept as its two outcomes: the lock, or the error "file locked
  for too long; giving up". The lock is released when \<^verbatim>\<open>save\<close> or \<^verbatim>\<open>load\<close>
  returns, so consecutive calls are the calls the lock serializes.
\<close>

record os =
  lockHeld :: bool
  openErr :: bool
  truncateErr :: bool
  seekErr :: bool
  writeErr :: "content option"

definition mergeFrom :: "policy \<Rightarrow> content \<Rightarrow> Jar \<times> logmsg list \<Rightarrow> error option \<times> Jar \<times> logmsg list" where
  "mergeFrom P r jl =
     (case jl of (j, lg) \<Rightarrow>
        (case r of
           Empty \<Rightarrow> (None, j, lg)
         | Invalid \<Rightarrow> (Some SyntaxError, j, lg)
         | Doc data \<Rightarrow>
             (case json_Unmarshal data of
                None \<Rightarrow> (None, j, lg @ [DiscardingInvalidFormat])
              | Some es \<Rightarrow> (None, merge P es j, lg))))"

definition lockFile :: "os \<Rightarrow> string \<Rightarrow> error + string" where
  "lockFile sys path =
     (case lockNameFromPath path of
        Inl err \<Rightarrow> Inl err
      | Inr name \<Rightarrow> if lockHeld sys then Inl LockTimeout else Inr name)"

definition save :: "policy \<Rightarrow> os \<Rightarrow> int \<Rightarrow> Jar \<Rightarrow> world \<Rightarrow> error option \<times> Jar \<times> world" where
  "save P sys now j w =
     (case lockFile sys (filename j) of
        Inl err \<Rightarrow> (Some err, j, w)
      | Inr releaser \<Rightarrow>
          if openErr sys then (Some OpenFailed, j, w)
          else
            let f = (case files w (filename j) of None \<Rightarrow> Empty | Some c \<Rightarrow> c);
                (merr, j1, lg1) = mergeFrom P f (j, logs w);
                lg2 = (case merr of None \<Rightarrow> lg1 | Some err \<Rightarrow> lg1 @ [CannotReadCookieFile err]);
                j2 = deleteExpired now j1
            in if truncateErr sys
               then (Some TruncateFailed, j2, \<lparr>files = (files w)(filename j \<mapsto> f), logs = lg2\<rparr>)
               else if seekErr sys
               then (Some SeekFailed, j2, \<lparr>files = (files w)(filename j \<mapsto> Empty), logs = lg2\<rparr>)
               else (case writeErr sys of
                       Some left \<Rightarrow>
                         (Some WriteFailed, j2, \<lparr>files = (files w)(filename j \<mapsto> left), logs = lg2\<rparr>)
                     | None \<Rightarrow>
                         (None, j2, \<lparr>files = (files w)(filename j \<mapsto> writeTo j2), logs = lg2\<rparr>)))"

text \<open>
  \<open>openErr\<close> is a failure of the open call for another reason than the file's absence;
  the absence itself is no error for \<^verbatim>\<open>load\<close>, and \<^verbatim>\<open>save\<close> creates the file.
\<close>

definition load :: "policy \<Rightarrow> os \<Rightarrow> Jar \<Rightarrow> world \<Rightarrow> error option \<times> Jar \<times> world" where
  "load P sys j w =
     (case lockFile sys (filename j) of
        Inl err \<Rightarrow> (Some err, j, w)
      | Inr releaser \<Rightarrow>
          (case files w (filename j) of
             None \<Rightarrow> if openErr sys then (Some OpenFailed, j, w) else (None, j, w)
           | Some f \<Rightarrow>
               if openErr sys then (Some OpenFailed, j, w)
               else (case mergeFrom P f (j, logs w) of
                       (merr, j1, lg1) \<Rightarrow> (merr, j1, w\<lparr>logs := lg1\<rparr>))))"

subsection \<open>Notions the properties are stated with\<close>

text \<open>The records of a store, in the order \<^verbatim>\<open>range\<close> visits them.\<close>

definition all_entries :: "entries_map \<Rightarrow> entry list" where
  "all_entries m = concat (map (\<lambda>(k, sub). map snd sub) m)"

definition records :: "Jar \<Rightarrow> entry set" where
  "records j = set (all_entries (entries j))"

text \<open>
  A store is a Go map of Go maps: no key occurs twice, on either level, and every record
  sits under its own identity.
\<close>

definition well_keyed :: "policy \<Rightarrow> entries_map \<Rightarrow> bool" where
  "well_keyed P m \<longleftrightarrow>
     distinct (map fst m) \<and>
     list_all (\<lambda>(k, sub). distinct (map fst sub) \<and>
        list_all (\<lambda>(i, e). k = CanonicalGroupKey e \<and> i = recordKey P e) sub) m"

text \<open>The elements of a slice; the nil slice has none.\<close>

definition elems :: "'a list option \<Rightarrow> 'a list" where
  "elems s = (case s of None \<Rightarrow> [] | Some xs \<Rightarrow> xs)"

text \<open>A list as \<^verbatim>\<open>append\<close> builds it from the nil slice: nil while nothing was appended.\<close>

definition slice_of :: "'a list \<Rightarrow> 'a list option" where
  "slice_of xs = (if xs = [] then None else Some xs)"


text \<open>What \<^verbatim>\<open>os.OpenFile\<close> with \<^verbatim>\<open>O_CREATE\<close> gives to read: an absent file is created empty.\<close>

definition file_of :: "world \<Rightarrow> string \<Rightarrow> content" where
  "file_of w p = (case files w p of None \<Rightarrow> Empty | Some c \<Rightarrow> c)"

text \<open>The records a file's content decodes to; none when it holds no record array.\<close>

definition file_records :: "content \<Rightarrow> entry list" where
  "file_records r =
     (case r of
        Doc v \<Rightarrow> (case json_Unmarshal v of None \<Rightarrow> [] | Some es \<Rightarrow> elems es)
      | _ \<Rightarrow> [])"

text \<open>The jar as \<^verbatim>\<open>save\<close> holds it after its merge step, before it purges.\<close>

definition merged :: "policy \<Rightarrow> Jar \<Rightarrow> world \<Rightarrow> Jar" where
  "merged P j w = fst (snd (mergeFrom P (file_of w (filename j)) (j, logs w)))"

text \<open>Every call of the operating system succeeds and the lock is free.\<close>

definition os_ok :: "os \<Rightarrow> bool" where
  "os_ok sys \<longleftrightarrow>
     \<not> lockHeld sys \<and> \<not> openErr sys \<and> \<not> truncateErr sys \<and> \<not> seekErr sys \<and> writeErr sys = None"

text \<open>A fresh, empty store over a file.\<close>

definition newJar :: "string \<Rightarrow> Jar" where
  "newJar p = \<lparr>filename = p, entries = []\<rparr>"

subsection \<open>Example inputs\<close>

text \<open>
  A policy with overwriting precedence, keyed by origin, path and name; an operating
  system on which every call succeeds; four cookies and two cookies that tie on group key
  and path length.
\<close>

definition examplePolicy :: policy where
  "examplePolicy =
     \<lparr>recordKey = (\<lambda>e. Origin e @ '';'' @ Path e @ '';'' @ Name e),
      supersedes = (\<lambda>new old. True)\<rparr>"

definition osFine :: os where
  "osFine = \<lparr>lockHeld = False, openErr = False, truncateErr = False, seekErr = False,
              writeErr = None\<rparr>"

definition noFiles :: world where
  "noFiles = \<lparr>files = Map.empty, logs = []\<rparr>"

definition cookieX :: entry where
  "cookieX = \<lparr>Name = ''sid'', Value = ''1'', Origin = ''a.com'', Path = ''/'', Flags = 0,
               Expiry = 100, Persistent = True, CanonicalGroupKey = ''a.com''\<rparr>"

definition cookieY :: entry where
  "cookieY = \<lparr>Name = ''lang'', Value = ''en'', Origin = ''b.org'', Path = ''/x'', Flags = 1,
               Expiry = 200, Persistent = True, CanonicalGroupKey = ''b.org''\<rparr>"

definition cookieSession :: entry where
  "cookieSession = \<lparr>Name = ''tmp'', Value = ''7'', Origin = ''a.com'', Path = ''/'', Flags = 0,
               Expiry = 100, Persistent = False, CanonicalGroupKey = ''a.com''\<rparr>"

definition cookieStale :: entry where
  "cookieStale = \<lparr>Name = ''old'', Value = ''0'', Origin = ''a.com'', Path = ''/'', Flags = 0,
               Expiry = 5, Persistent = True, CanonicalGroupKey = ''a.com''\<rparr>"

definition tieA :: entry where
  "tieA = \<lparr>Name = ''sid'', Value = ''1'', Origin = ''c.net'', Path = ''/'', Flags = 0,
            Expiry = 100, Persistent = True, CanonicalGroupKey = ''w.c.net''\<rparr>"

definition tieB :: entry where
  "tieB = \<lparr>Name = ''sid'', Value = ''1'', Origin = ''w.c.net'', Path = ''/'', Flags = 0,
            Expiry = 100, Persistent = True, CanonicalGroupKey = ''w.c.net''\<rparr>"

definition jarA :: Jar where
  "jarA = \<lparr>filename = ''cookies'',
            entries = [(''a.com'', [(''a.com;/;sid'', cookieX), (''a.com;/;tmp'', cookieSession),
                                    (''a.com;/;old'', cookieStale)])]\<rparr>"

definition jarTie1 :: Jar where
  "jarTie1 = \<lparr>filename = ''cookies'',
               entries = [(''w.c.net'', [(''c.net;/;sid'', tieA), (''w.c.net;/;sid'', tieB)])]\<rparr>"

definition jarTie2 :: Jar where
  "jarTie2 = \<lparr>filename = ''cookies'',
               entries = [(''w.c.net'', [(''w.c.net;/;sid'', tieB), (''c.net;/;sid'', tieA)])]\<rparr>"

definition jarXY :: Jar where
  "jarXY = \<lparr>filename = ''cookies'',
             entries = [(''b.org'', [(''b.org;/x;lang'', cookieY)]),
                        (''a.com'', [(''a.com;/;sid'', cookieX)])]\<rparr>"

definition jarYX :: Jar where
  "jarYX = \<lparr>filename = ''cookies'',
             entries = [(''a.com'', [(''a.com;/;sid'', cookieX)]),
                        (''b.org'', [(''b.org;/x;lang'', cookieY)])]\<rparr>"

text \<open>A file of bytes that are not JSON, a file in a foreign format, and an empty file.\<close>

definition brokenFile :: world where
  "brokenFile = \<lparr>files = [''cookies'' \<mapsto> Invalid], logs = []\<rparr>"

definition legacyFile :: world where
  "legacyFile = \<lparr>files = [''cookies'' \<mapsto> Doc (JObj [(''a.com'', JArr [])])], logs = []\<rparr>"

definition emptyFile :: world where
  "emptyFile = \<lparr>files = [''cookies'' \<mapsto> Empty], logs = []\<rparr>"


section \<open>Properties\<close>

subsection \<open>The lock name\<close>

lemma length_base64_URLEncoding:
  "length (base64_URLEncoding bs) = 4 * ((length bs + 2) div 3)"
proof (induction bs rule: base64_URLEncoding.induct)
  case (1 a b c rest)
  have "(length (a # b # c # rest) + 2) div 3 = Suc ((length rest + 2) div 3)"
    by simp
  with 1 show ?case by simp
qed simp_all

lemma length_bytes32: "length (bytes32 w) = 4"
  by (simp add: bytes32_def)

lemma length_sha256: "length (sha256 m) = 32"
  by (simp add: sha256_def Let_def length_bytes32 split: prod.split)

lemma length_sha_text: "length (base64_URLEncoding (sha256 m)) = 44"
  by (simp add: length_base64_URLEncoding length_sha256)

lemma last_chars_drop:
  "last_chars 10 path = (if length path > 10 then drop (length path - 10) path else path)"
  by (simp add: last_chars_def take_rev)

lemma isAlnum_L: "isAlnum CHR ''L''"
  by (simp add: isAlnum_def)

text \<open>
  C6. \<^verbatim>\<open>lockNameFromPath\<close> is a function of the path alone. On the empty path it
  fails with the empty-path error. On every other path it returns the letter \<open>L\<close>, the
  first 29 characters of the URL-safe base64 text of the path's SHA-256 digest (the text has
  44 characters, so the slice is in range) and the last 10 characters of the path, with every
  character outside \<open>[A-Za-z0-9]\<close> removed; the name is not empty, consists of
  alphanumeric characters only and begins with the letter \<open>L\<close>.
\<close>

theorem lockNameFromPath_format:
  "lockNameFromPath [] = Inl EmptyPath \<and>
   (path \<noteq> [] \<longrightarrow>
      (\<exists>name. lockNameFromPath path = Inr name \<and>
         name = filter isAlnum (''L'' @ take 29 (base64_URLEncoding (sha256 (bytes_of path)))
                                  @ last_chars 10 path) \<and>
         length (take 29 (base64_URLEncoding (sha256 (bytes_of path)))) = 29 \<and>
         name \<noteq> [] \<and> list_all isAlnum name \<and> hd name = CHR ''L'' \<and> isLetter (hd name)))"
proof (intro conjI impI)
  show "lockNameFromPath [] = Inl EmptyPath"
    by (simp add: lockNameFromPath_def)
next
  assume nonempty: "path \<noteq> []"
  let ?sha = "base64_URLEncoding (sha256 (bytes_of path))"
  let ?name = "filter isAlnum (''L'' @ take 29 ?sha @ last_chars 10 path)"
  have call: "lockNameFromPath path = Inr ?name"
    using nonempty
    by (simp only: lockNameFromPath_def Let_def re_ReplaceAllLiteralString_def
        last_chars_drop if_False)
  have slice: "length (take 29 ?sha) = 29"
    by (simp add: length_sha_text)
  have shape: "?name = CHR ''L'' # filter isAlnum (take 29 ?sha @ last_chars 10 path)"
    by (simp add: isAlnum_L)
  have alnum: "list_all isAlnum ?name"
    by (simp only: list_all_iff set_filter) blast
  have letter: "isLetter (hd ?name)"
    by (simp only: shape list.sel) (simp add: isLetter_def)
  have "hd ?name = CHR ''L''" "?name \<noteq> []"
    by (simp_all only: shape list.sel) simp
  with call slice alnum letter
  show "\<exists>name. lockNameFromPath path = Inr name \<and> name = ?name \<and>
         length (take 29 ?sha) = 29 \<and>
         name \<noteq> [] \<and> list_all isAlnum name \<and> hd name = CHR ''L'' \<and> isLetter (hd name)"
    by blast
qed

text \<open>The same at the path \<^verbatim>\<open>/tmp/cookies\<close>.\<close>

theorem lockNameFromPath_format_witness:
  "lockNameFromPath [] = Inl EmptyPath \<and>
   (\<exists>name. lockNameFromPath ''/tmp/cookies'' = Inr name \<and>
         name = filter isAlnum (''L'' @ take 29 (base64_URLEncoding (sha256 (bytes_of ''/tmp/cookies'')))
                                  @ last_chars 10 ''/tmp/cookies'') \<and>
         length (take 29 (base64_URLEncoding (sha256 (bytes_of ''/tmp/cookies'')))) = 29 \<and>
         name \<noteq> [] \<and> list_all isAlnum name \<and> hd name = CHR ''L'' \<and> isLetter (hd name))"
proof -
  have "''/tmp/cookies'' \<noteq> []" by simp
  with lockNameFromPath_format [of "''/tmp/cookies''"] show ?thesis by blast
qed

subsection \<open>The sort\<close>

lemma mset_sift: "mset (sift lt x ys) = add_mset x (mset ys)"
  by (induction ys) simp_all

lemma set_sift: "set (sift lt x ys) = insert x (set ys)"
  by (induction ys) auto

lemma mset_foldl_sift:
  "mset (foldl (\<lambda>sorted_part x. sift lt x sorted_part) acc xs) = mset acc + mset xs"
  by (induction xs arbitrary: acc) (simp_all add: mset_sift)

lemma mset_sort_Sort: "mset (sort_Sort lt xs) = mset xs"
  by (simp add: sort_Sort_def mset_foldl_sift)

lemma Less_sortKey: "byCanonicalHost_Less a b \<longleftrightarrow> sortKey a < sortKey b"
  by (auto simp add: byCanonicalHost_Less_def sortKey_def less_prod_def)

lemma sift_descending:
  assumes "sorted_wrt (\<lambda>a b. sortKey b \<le> sortKey a) ys"
  shows "sorted_wrt (\<lambda>a b. sortKey b \<le> sortKey a) (sift byCanonicalHost_Less x ys)"
  using assms
proof (induction ys)
  case Nil
  then show ?case by simp
next
  case (Cons y ys)
  show ?case
  proof (cases "byCanonicalHost_Less x y")
    case True
    with Cons show ?thesis
      by (auto simp add: set_sift Less_sortKey)
  next
    case False
    then have "sortKey y \<le> sortKey x"
      by (simp add: Less_sortKey)
    with Cons.prems False show ?thesis
      by auto
  qed
qed

lemma foldl_sift_descending:
  "sorted_wrt (\<lambda>a b. sortKey b \<le> sortKey a) acc \<Longrightarrow>
   sorted_wrt (\<lambda>a b. sortKey b \<le> sortKey a)
     (foldl (\<lambda>sorted_part x. sift byCanonicalHost_Less x sorted_part) acc xs)"
  by (induction xs arbitrary: acc) (simp_all add: sift_descending)

lemma sorted_sort_Sort: "sorted (map sortKey (sort_Sort byCanonicalHost_Less xs))"
proof -
  have "sorted_wrt (\<lambda>a b. sortKey b \<le> sortKey a)
          (foldl (\<lambda>sorted_part x. sift byCanonicalHost_Less x sorted_part) [] xs)"
    by (rule foldl_sift_descending) simp
  then show ?thesis
    by (simp add: sort_Sort_def sorted_map sorted_wrt_rev)
qed

lemma sorted_key_unique:
  assumes "sorted (map sortKey xs)" "sorted (map sortKey ys)" "mset xs = mset ys"
    and "inj_on sortKey (set xs)"
  shows "xs = ys"
proof -
  have "mset (map sortKey xs) = mset (map sortKey ys)"
    using assms(3) by simp
  with assms(1,2) have "map sortKey xs = map sortKey ys"
    by (metis properties_for_sort)
  moreover have "set ys = set xs"
    using assms(3) by (metis set_mset_mset)
  ultimately show ?thesis
    using assms(4) by (simp add: inj_on_map_eq_map)
qed

subsection \<open>Collecting the persistent records\<close>

lemma collect_submap_Some:
  "collect_submap (Some acc) sub = Some (acc @ filter Persistent (map snd sub))"
  by (induction sub arbitrary: acc) (auto simp add: collect_submap_def append_slice_def)

lemma collect_submap_None:
  "collect_submap None sub =
     (if filter Persistent (map snd sub) = [] then None
      else Some (filter Persistent (map snd sub)))"
proof (induction sub)
  case Nil
  then show ?case by (simp add: collect_submap_def)
next
  case (Cons p sub)
  obtain i e where p: "p = (i, e)" by (cases p)
  show ?case
  proof (cases "Persistent e")
    case True
    have "collect_submap None (p # sub) = collect_submap (Some [e]) sub"
      by (simp add: collect_submap_def append_slice_def p True)
    then show ?thesis
      by (simp add: collect_submap_Some p True)
  next
    case False
    have "collect_submap None (p # sub) = collect_submap None sub"
      by (simp add: collect_submap_def p False)
    with Cons show ?thesis
      by (simp add: p False)
  qed
qed

lemma collect_submap_slice:
  "collect_submap (slice_of acc) sub = slice_of (acc @ filter Persistent (map snd sub))"
  by (simp add: slice_of_def collect_submap_None collect_submap_Some)

lemma collect_all:
  "foldl (\<lambda>acc (k, sub). collect_submap acc sub) (slice_of acc) m =
     slice_of (acc @ filter Persistent (all_entries m))"
proof (induction m arbitrary: acc)
  case Nil
  then show ?case by (simp add: all_entries_def)
next
  case (Cons p m)
  obtain k sub where p: "p = (k, sub)" by (cases p)
  have "all_entries (p # m) = map snd sub @ all_entries m"
    by (simp add: all_entries_def p)
  with Cons [of "acc @ filter Persistent (map snd sub)"] show ?case
    by (simp add: p collect_submap_slice)
qed

lemma allPersistentEntries_eq:
  "allPersistentEntries j =
     map_option (sort_Sort byCanonicalHost_Less)
       (slice_of (filter Persistent (all_entries (entries j))))"
  using collect_all [of "[]" "entries j"]
  by (simp add: allPersistentEntries_def slice_of_def)

lemma mset_allPersistentEntries:
  "mset (elems (allPersistentEntries j)) = mset (filter Persistent (all_entries (entries j)))"
proof (cases "filter Persistent (all_entries (entries j)) = []")
  case True
  then show ?thesis
    by (simp add: allPersistentEntries_eq slice_of_def elems_def)
next
  case False
  then show ?thesis
    by (simp add: allPersistentEntries_eq slice_of_def elems_def mset_sort_Sort)
qed

lemma set_allPersistentEntries:
  "set (elems (allPersistentEntries j)) = {e \<in> records j. Persistent e}"
  using mset_allPersistentEntries [of j]
  by (metis records_def set_filter set_mset_mset)

subsection \<open>Encoding and decoding\<close>

lemma unmarshalEntry_marshalEntry: "unmarshalEntry (marshalEntry e) = Some e"
  by (simp add: marshalEntry_def setField_def zeroEntry_def)

lemma unmarshalAll_marshal: "unmarshalAll (map marshalEntry es) = Some es"
  by (induction es) (simp_all add: unmarshalEntry_marshalEntry)

lemma json_Unmarshal_Marshal: "json_Unmarshal (json_Marshal s) = Some s"
  by (cases s) (simp_all add: json_Marshal_def unmarshalAll_marshal)

lemma json_Marshal_inject: "json_Marshal s = json_Marshal t \<Longrightarrow> s = t"
  by (metis json_Unmarshal_Marshal option.inject)

subsection \<open>The store\<close>












subsection \<open>Purging\<close>





subsection \<open>Unfolding save and load\<close>

lemma lockFile_cases:
  "lockFile sys path =
     (if path = [] then Inl EmptyPath
      else if lockHeld sys then Inl LockTimeout
      else lockNameFromPath path)"
  by (simp add: lockFile_def lockNameFromPath_def Let_def)

lemma lockFile_free:
  "path \<noteq> [] \<Longrightarrow> \<not> lockHeld sys \<Longrightarrow> \<exists>name. lockFile sys path = Inr name"
  by (simp add: lockFile_cases lockNameFromPath_def Let_def)

lemma mergeFrom_jar:
  "fst (snd (mergeFrom P r (j, lg))) =
     j\<lparr>entries := foldl (merge1 P) (entries j) (file_records r)\<rparr>"
  by (simp add: mergeFrom_def file_records_def merge_def elems_def
      split: content.split option.split)



lemma save_ok:
  assumes "filename j \<noteq> []" "os_ok sys"
  shows "fst (save P sys now j w) = None"
    and "fst (snd (save P sys now j w)) = deleteExpired now (merged P j w)"
    and "files (snd (snd (save P sys now j w))) =
           (files w)(filename j \<mapsto> writeTo (deleteExpired now (merged P j w)))"
proof -
  from assms obtain name where l: "lockFile sys (filename j) = Inr name"
    using lockFile_free [of "filename j" sys] by (auto simp add: os_ok_def)
  from assms(2) have o: "\<not> openErr sys" "\<not> truncateErr sys" "\<not> seekErr sys" "writeErr sys = None"
    by (simp_all add: os_ok_def)
  show "fst (save P sys now j w) = None"
    by (simp add: save_def l o Let_def split: prod.split)
  show "fst (snd (save P sys now j w)) = deleteExpired now (merged P j w)"
    by (simp add: save_def l o Let_def merged_def file_of_def split: prod.split)
  show "files (snd (snd (save P sys now j w))) =
           (files w)(filename j \<mapsto> writeTo (deleteExpired now (merged P j w)))"
    by (simp add: save_def l o Let_def merged_def file_of_def split: prod.split)
qed

lemma save_None_iff:
  "fst (save P sys now j w) = None \<longleftrightarrow> filename j \<noteq> [] \<and> os_ok sys"
proof
  assume "filename j \<noteq> [] \<and> os_ok sys"
  then show "fst (save P sys now j w) = None" by (simp add: save_ok(1))
next
  assume s: "fst (save P sys now j w) = None"
  show "filename j \<noteq> [] \<and> os_ok sys"
  proof (cases "lockFile sys (filename j)")
    case (Inl err)
    with s show ?thesis by (simp add: save_def)
  next
    case (Inr name)
    then have "filename j \<noteq> []" "\<not> lockHeld sys"
      by (auto simp add: lockFile_cases split: if_splits)
    moreover from s Inr have "\<not> openErr sys \<and> \<not> truncateErr sys \<and> \<not> seekErr sys \<and> writeErr sys = None"
      by (auto simp add: save_def Let_def split: prod.splits if_splits option.splits)
    ultimately show ?thesis by (simp add: os_ok_def)
  qed
qed

lemma load_ok:
  assumes "filename j \<noteq> []" "\<not> lockHeld sys" "\<not> openErr sys" "files w (filename j) = Some r"
  shows "load P sys j w = (case mergeFrom P r (j, logs w) of (merr, j1, lg1) \<Rightarrow> (merr, j1, w\<lparr>logs := lg1\<rparr>))"
proof -
  from assms obtain name where l: "lockFile sys (filename j) = Inr name"
    using lockFile_free [of "filename j" sys] by auto
  show ?thesis
    by (simp add: load_def l assms)
qed

subsection \<open>What save writes\<close>



subsection \<open>The example inputs\<close>

lemma os_ok_osFine: "os_ok osFine"
  by (simp add: os_ok_def osFine_def)

lemma merged_noFiles: "merged P j noFiles = j"
  by (simp add: merged_def mergeFrom_jar file_of_def file_records_def noFiles_def)

lemma records_jarA: "records jarA = {cookieX, cookieSession, cookieStale}"
  by (simp add: records_def all_entries_def jarA_def)


subsection \<open>Only persistent records are written\<close>

text \<open>
  C5. Whatever the jar holds, the slice \<^verbatim>\<open>allPersistentEntries\<close> returns, which is what
  \<^verbatim>\<open>writeTo\<close> encodes, holds only records whose persistence flag is set; so after a
  successful \<^verbatim>\<open>save\<close> the file is the encoding of persistent records only, and a
  record whose flag is not set is not among them, whatever its expiry.
\<close>

theorem nonpersistent_never_written:
  "list_all Persistent (elems (allPersistentEntries j)) \<and>
   writeTo j = Doc (json_Marshal (allPersistentEntries j)) \<and>
   (fst (save P sys now j w) = None \<longrightarrow>
      (\<exists>es. files (snd (snd (save P sys now j w))) (filename j) = Some (Doc (json_Marshal es)) \<and>
            list_all Persistent (elems es) \<and>
            (\<not> Persistent e \<longrightarrow> e \<notin> set (elems es))))"
proof (intro conjI impI)
  show all: "list_all Persistent (elems (allPersistentEntries j))" for j
    unfolding list_all_iff set_allPersistentEntries by simp
  show "writeTo j = Doc (json_Marshal (allPersistentEntries j))"
    by (simp add: writeTo_def)
  assume "fst (save P sys now j w) = None"
  then have ok: "filename j \<noteq> []" "os_ok sys"
    by (simp_all add: save_None_iff)
  let ?j = "deleteExpired now (merged P j w)"
  have "files (snd (snd (save P sys now j w))) (filename j)
          = Some (Doc (json_Marshal (allPersistentEntries ?j)))"
    by (simp add: save_ok(3) [OF ok] writeTo_def)
  moreover have "list_all Persistent (elems (allPersistentEntries ?j))"
    by (rule all)
  moreover have "\<not> Persistent e \<longrightarrow> e \<notin> set (elems (allPersistentEntries ?j))"
    by (simp add: set_allPersistentEntries)
  ultimately show "\<exists>es. files (snd (snd (save P sys now j w))) (filename j)
        = Some (Doc (json_Marshal es)) \<and> list_all Persistent (elems es) \<and>
            (\<not> Persistent e \<longrightarrow> e \<notin> set (elems es))"
    by blast
qed

text \<open>
  A jar with a session cookie, saved at instant 50 where no file exists: the save succeeds
  and the session cookie is not in the file.
\<close>

theorem nonpersistent_never_written_witness:
  "cookieSession \<in> records jarA \<and> \<not> Persistent cookieSession \<and>
   fst (save examplePolicy osFine 50 jarA noFiles) = None \<and>
   (\<exists>es. files (snd (snd (save examplePolicy osFine 50 jarA noFiles))) (filename jarA)
            = Some (Doc (json_Marshal es)) \<and>
         list_all Persistent (elems es) \<and> cookieSession \<notin> set (elems es))"
proof -
  have s: "fst (save examplePolicy osFine 50 jarA noFiles) = None"
    by (simp add: save_None_iff os_ok_osFine) (simp add: jarA_def)
  have n: "\<not> Persistent cookieSession"
    by (simp add: cookieSession_def)
  have r: "cookieSession \<in> records jarA"
    by (simp add: records_jarA)
  from nonpersistent_never_written [of jarA examplePolicy osFine 50 noFiles cookieSession] s n r
  show ?thesis by blast
qed


subsection \<open>The order of the written records\<close>

lemma allPersistentEntries_jarTie1: "allPersistentEntries jarTie1 = Some [tieA, tieB]"
  by (simp add: allPersistentEntries_def collect_submap_def append_slice_def sort_Sort_def
      byCanonicalHost_Less_def jarTie1_def tieA_def tieB_def)

lemma allPersistentEntries_jarTie2: "allPersistentEntries jarTie2 = Some [tieB, tieA]"
  by (simp add: allPersistentEntries_def collect_submap_def append_slice_def sort_Sort_def
      byCanonicalHost_Less_def jarTie2_def tieA_def tieB_def)

text \<open>
  C3, as stated, fails. Two stores hold the same two records under the same keys; the
  records tie on group key and path length, and \<^verbatim>\<open>range\<close> visits them in the two
  possible orders. Nothing in the ordering separates them, so the two encodings differ.
\<close>

theorem deterministic_order_counterexample:
  "well_keyed examplePolicy (entries jarTie1) \<and> well_keyed examplePolicy (entries jarTie2) \<and>
   mset (all_entries (entries jarTie1)) = mset (all_entries (entries jarTie2)) \<and>
   lookup (entries jarTie1) = lookup (entries jarTie2) \<and>
   writeTo jarTie1 \<noteq> writeTo jarTie2"
proof -
  have "well_keyed examplePolicy (entries jarTie1)" "well_keyed examplePolicy (entries jarTie2)"
    by (simp_all add: well_keyed_def examplePolicy_def jarTie1_def jarTie2_def tieA_def tieB_def)
  moreover have "mset (all_entries (entries jarTie1)) = mset (all_entries (entries jarTie2))"
    by (simp add: all_entries_def jarTie1_def jarTie2_def)
  moreover have "lookup (entries jarTie1) = lookup (entries jarTie2)"
    by (intro ext) (simp add: lookup_def sub_of_def jarTie1_def jarTie2_def)
  moreover have "tieA \<noteq> tieB"
    by (simp add: tieA_def tieB_def)
  then have "writeTo jarTie1 \<noteq> writeTo jarTie2"
    unfolding writeTo_def allPersistentEntries_jarTie1 allPersistentEntries_jarTie2
    by (auto dest!: json_Marshal_inject)
  ultimately show ?thesis by simp
qed

text \<open>
  C3, amended. When no two persistent records of the set share both the canonical group key
  and the path length, every visiting order of the same records gives the same encoding. In
  every case the written records are exactly the persistent ones, in ascending order of
  the canonical group key and, within one group key, in ascending order of path length.
\<close>

theorem deterministic_order_without_ties:
  "(mset (all_entries (entries j1)) = mset (all_entries (entries j2)) \<and>
    inj_on sortKey {e \<in> records j1. Persistent e} \<longrightarrow> writeTo j1 = writeTo j2) \<and>
   mset (elems (allPersistentEntries j1)) = mset (filter Persistent (all_entries (entries j1))) \<and>
   sorted_wrt (\<lambda>a b. CanonicalGroupKey a < CanonicalGroupKey b \<or>
                  (CanonicalGroupKey a = CanonicalGroupKey b \<and> length (Path a) \<le> length (Path b)))
     (elems (allPersistentEntries j1))"
proof (intro conjI impI)
  show m: "mset (elems (allPersistentEntries j)) = mset (filter Persistent (all_entries (entries j)))"
    for j by (rule mset_allPersistentEntries)
  have s: "sorted (map sortKey (elems (allPersistentEntries j)))" for j
    by (simp add: allPersistentEntries_eq slice_of_def elems_def sorted_sort_Sort)
  have "(\<lambda>a b. CanonicalGroupKey a < CanonicalGroupKey b \<or>
                  (CanonicalGroupKey a = CanonicalGroupKey b \<and> length (Path a) \<le> length (Path b)))
        = (\<lambda>a b. sortKey a \<le> sortKey b)"
    by (intro ext) (auto simp add: sortKey_def less_eq_prod_def)
  with s [of j1] show "sorted_wrt (\<lambda>a b. CanonicalGroupKey a < CanonicalGroupKey b \<or>
                  (CanonicalGroupKey a = CanonicalGroupKey b \<and> length (Path a) \<le> length (Path b)))
     (elems (allPersistentEntries j1))"
    by (simp add: sorted_map)
  assume a: "mset (all_entries (entries j1)) = mset (all_entries (entries j2)) \<and>
    inj_on sortKey {e \<in> records j1. Persistent e}"
  let ?l1 = "elems (allPersistentEntries j1)" and ?l2 = "elems (allPersistentEntries j2)"
  from a have "mset (filter Persistent (all_entries (entries j1)))
             = mset (filter Persistent (all_entries (entries j2)))"
    by (metis mset_filter)
  then have "mset ?l1 = mset ?l2"
    by (simp add: m)
  moreover from a have "inj_on sortKey (set ?l1)"
    by (simp add: set_allPersistentEntries)
  ultimately have l: "?l1 = ?l2"
    using s [of j1] s [of j2] by (intro sorted_key_unique)
  have n: "allPersistentEntries j = None \<longleftrightarrow> elems (allPersistentEntries j) = []" for j
    using mset_sort_Sort [of byCanonicalHost_Less "filter Persistent (all_entries (entries j))"]
    by (auto simp add: allPersistentEntries_eq slice_of_def elems_def)
  have "allPersistentEntries j1 = allPersistentEntries j2"
  proof (cases "allPersistentEntries j1")
    case None
    with l n [of j1] n [of j2] show ?thesis by simp
  next
    case (Some es)
    with n [of j1] have "es \<noteq> []" by (simp add: elems_def)
    with Some l n [of j2] show ?thesis
      by (cases "allPersistentEntries j2") (simp_all add: elems_def)
  qed
  then show "writeTo j1 = writeTo j2"
    by (simp add: writeTo_def)
qed

text \<open>Two records with different group keys, visited in the two possible orders.\<close>

theorem deterministic_order_without_ties_witness:
  "mset (all_entries (entries jarXY)) = mset (all_entries (entries jarYX)) \<and>
   inj_on sortKey {e \<in> records jarXY. Persistent e} \<and>
   entries jarXY \<noteq> entries jarYX \<and>
   writeTo jarXY = writeTo jarYX"
proof -
  have 1: "mset (all_entries (entries jarXY)) = mset (all_entries (entries jarYX))"
    by (simp add: all_entries_def jarXY_def jarYX_def)
  have 2: "inj_on sortKey {e \<in> records jarXY. Persistent e}"
    by (auto simp add: inj_on_def records_def all_entries_def jarXY_def sortKey_def
        cookieX_def cookieY_def)
  have 3: "entries jarXY \<noteq> entries jarYX"
    by (simp add: jarXY_def jarYX_def)
  from deterministic_order_without_ties [of jarXY jarYX] 1 2 3 show ?thesis
    by blast
qed

subsection \<open>Expiry at save\<close>










subsection \<open>What the decoder finds\<close>

text \<open>
  C8. On an empty stream \<^verbatim>\<open>mergeFrom\<close> merges nothing and returns no error. On a
  JSON value that \<^verbatim>\<open>json.Unmarshal\<close> cannot store in a slice of records (an object,
  a string, a number, a boolean, an array with a member of another kind) it merges nothing,
  logs the warning and returns no error; on \<^verbatim>\<open>null\<close> it merges nothing either. On
  bytes that are not JSON it returns the decoder's error. \<^verbatim>\<open>load\<close> hands that error to
  its caller and leaves jar and file alone; \<^verbatim>\<open>save\<close> logs it, purges the jar it has
  in memory and writes it.
\<close>

theorem decode_tiers:
  "mergeFrom P Empty (j, lg) = (None, j, lg) \<and>
   mergeFrom P (Doc JNull) (j, lg) = (None, j, lg) \<and>
   (json_Unmarshal v = None \<longrightarrow>
      mergeFrom P (Doc v) (j, lg) = (None, j, lg @ [DiscardingInvalidFormat])) \<and>
   json_Unmarshal (JObj kvs) = None \<and> json_Unmarshal (JStr s) = None \<and>
   json_Unmarshal (JNum n) = None \<and> json_Unmarshal (JBool b) = None \<and>
   json_Unmarshal (JArr (JNum n # vs)) = None \<and>
   mergeFrom P Invalid (j, lg) = (Some SyntaxError, j, lg) \<and>
   (filename j \<noteq> [] \<and> \<not> lockHeld sys \<and> \<not> openErr sys \<longrightarrow>
      (files w (filename j) = Some Empty \<longrightarrow> load P sys j w = (None, j, w)) \<and>
      (files w (filename j) = Some (Doc v) \<and> json_Unmarshal v = None \<longrightarrow>
         load P sys j w = (None, j, w\<lparr>logs := logs w @ [DiscardingInvalidFormat]\<rparr>)) \<and>
      (files w (filename j) = Some Invalid \<longrightarrow> load P sys j w = (Some SyntaxError, j, w))) \<and>
   (filename j \<noteq> [] \<and> os_ok sys \<and> files w (filename j) = Some Invalid \<longrightarrow>
      save P sys now j w =
        (None, deleteExpired now j,
         \<lparr>files = (files w)(filename j \<mapsto> writeTo (deleteExpired now j)),
          logs = logs w @ [CannotReadCookieFile SyntaxError]\<rparr>))"
proof (intro conjI impI)
  show "mergeFrom P Empty (j, lg) = (None, j, lg)"
    by (simp add: mergeFrom_def)
  show "mergeFrom P (Doc JNull) (j, lg) = (None, j, lg)"
    by (simp add: mergeFrom_def merge_def)
  show "mergeFrom P (Doc v) (j, lg) = (None, j, lg @ [DiscardingInvalidFormat])"
    if "json_Unmarshal v = None"
    using that by (simp add: mergeFrom_def)
  show "json_Unmarshal (JObj kvs) = None" "json_Unmarshal (JStr s) = None"
    "json_Unmarshal (JNum n) = None" "json_Unmarshal (JBool b) = None"
    "json_Unmarshal (JArr (JNum n # vs)) = None"
    by simp_all
  show "mergeFrom P Invalid (j, lg) = (Some SyntaxError, j, lg)"
    by (simp add: mergeFrom_def)
next
  assume a: "filename j \<noteq> [] \<and> \<not> lockHeld sys \<and> \<not> openErr sys"
  assume f: "files w (filename j) = Some Empty"
  from a f have "load P sys j w
      = (case mergeFrom P Empty (j, logs w) of (merr, j1, lg1) \<Rightarrow> (merr, j1, w\<lparr>logs := lg1\<rparr>))"
    by (intro load_ok) simp_all
  then show "load P sys j w = (None, j, w)"
    by (simp add: mergeFrom_def)
next
  assume a: "filename j \<noteq> [] \<and> \<not> lockHeld sys \<and> \<not> openErr sys"
  assume f: "files w (filename j) = Some (Doc v) \<and> json_Unmarshal v = None"
  from a f have "load P sys j w
      = (case mergeFrom P (Doc v) (j, logs w) of (merr, j1, lg1) \<Rightarrow> (merr, j1, w\<lparr>logs := lg1\<rparr>))"
    by (intro load_ok) simp_all
  with f show "load P sys j w = (None, j, w\<lparr>logs := logs w @ [DiscardingInvalidFormat]\<rparr>)"
    by (simp add: mergeFrom_def)
next
  assume a: "filename j \<noteq> [] \<and> \<not> lockHeld sys \<and> \<not> openErr sys"
  assume f: "files w (filename j) = Some Invalid"
  from a f have "load P sys j w
      = (case mergeFrom P Invalid (j, logs w) of (merr, j1, lg1) \<Rightarrow> (merr, j1, w\<lparr>logs := lg1\<rparr>))"
    by (intro load_ok) simp_all
  then show "load P sys j w = (Some SyntaxError, j, w)"
    by (simp add: mergeFrom_def)
next
  assume a: "filename j \<noteq> [] \<and> os_ok sys \<and> files w (filename j) = Some Invalid"
  then obtain name where l: "lockFile sys (filename j) = Inr name"
    using lockFile_free [of "filename j" sys] by (auto simp add: os_ok_def)
  from a have o: "\<not> openErr sys" "\<not> truncateErr sys" "\<not> seekErr sys" "writeErr sys = None"
    by (simp_all add: os_ok_def)
  from a show "save P sys now j w =
        (None, deleteExpired now j,
         \<lparr>files = (files w)(filename j \<mapsto> writeTo (deleteExpired now j)),
          logs = logs w @ [CannotReadCookieFile SyntaxError]\<rparr>)"
    by (simp add: save_def l o mergeFrom_def Let_def)
qed

text \<open>The three kinds of file under the jar of the examples.\<close>

theorem decode_tiers_witness:
  "filename jarA \<noteq> [] \<and> os_ok osFine \<and>
   files emptyFile (filename jarA) = Some Empty \<and>
   load examplePolicy osFine jarA emptyFile = (None, jarA, emptyFile) \<and>
   files legacyFile (filename jarA) = Some (Doc (JObj [(''a.com'', JArr [])])) \<and>
   json_Unmarshal (JObj [(''a.com'', JArr [])]) = None \<and>
   load examplePolicy osFine jarA legacyFile
     = (None, jarA, legacyFile\<lparr>logs := [DiscardingInvalidFormat]\<rparr>) \<and>
   files brokenFile (filename jarA) = Some Invalid \<and>
   load examplePolicy osFine jarA brokenFile = (Some SyntaxError, jarA, brokenFile) \<and>
   save examplePolicy osFine 50 jarA brokenFile =
     (None, deleteExpired 50 jarA,
      \<lparr>files = [''cookies'' \<mapsto> writeTo (deleteExpired 50 jarA)],
       logs = [CannotReadCookieFile SyntaxError]\<rparr>)"
proof -
  have p: "filename jarA \<noteq> []" "filename jarA = ''cookies''"
    by (simp_all add: jarA_def)
  have o: "os_ok osFine" "\<not> lockHeld osFine" "\<not> openErr osFine"
    by (simp_all add: os_ok_def osFine_def)
  have f: "files emptyFile (filename jarA) = Some Empty"
    "files legacyFile (filename jarA) = Some (Doc (JObj [(''a.com'', JArr [])]))"
    "files brokenFile (filename jarA) = Some Invalid"
    by (simp_all add: p(2) emptyFile_def legacyFile_def brokenFile_def)
  have u: "json_Unmarshal (JObj [(''a.com'', JArr [])]) = None"
    by simp
  from decode_tiers [of examplePolicy jarA "[]" "JObj [(''a.com'', JArr [])]" _ _ _ _ _ osFine emptyFile]
    p o f have 1: "load examplePolicy osFine jarA emptyFile = (None, jarA, emptyFile)"
    by blast
  from decode_tiers [of examplePolicy jarA "[]" "JObj [(''a.com'', JArr [])]" _ _ _ _ _ osFine legacyFile]
    p o f u have "load examplePolicy osFine jarA legacyFile
     = (None, jarA, legacyFile\<lparr>logs := logs legacyFile @ [DiscardingInvalidFormat]\<rparr>)"
    by blast
  then have 2: "load examplePolicy osFine jarA legacyFile
     = (None, jarA, legacyFile\<lparr>logs := [DiscardingInvalidFormat]\<rparr>)"
    by (simp add: legacyFile_def)
  from decode_tiers [of examplePolicy jarA "[]" "JObj [(''a.com'', JArr [])]" _ _ _ _ _ osFine brokenFile 50]
    p o f have 3: "load examplePolicy osFine jarA brokenFile = (Some SyntaxError, jarA, brokenFile)"
    and "save examplePolicy osFine 50 jarA brokenFile =
        (None, deleteExpired 50 jarA,
         \<lparr>files = (files brokenFile)(filename jarA \<mapsto> writeTo (deleteExpired 50 jarA)),
          logs = logs brokenFile @ [CannotReadCookieFile SyntaxError]\<rparr>)"
    by blast+
  then have 4: "save examplePolicy osFine 50 jarA brokenFile =
     (None, deleteExpired 50 jarA,
      \<lparr>files = [''cookies'' \<mapsto> writeTo (deleteExpired 50 jarA)],
       logs = [CannotReadCookieFile SyntaxError]\<rparr>)"
    by (simp add: p(2) brokenFile_def)
  from p o f u 1 2 3 4 show ?thesis by simp
qed

text \<open>
  C10. \<^verbatim>\<open>mergeFrom\<close> returns an error only for bytes that are not JSON, and then jar
  and log are as before; it changes the jar only after the whole value was decoded into
  records, through the one call of \<^verbatim>\<open>merge\<close>. So whenever \<^verbatim>\<open>load\<close> returns an
  error, a decode error in particular, the jar is left as it was.
\<close>

theorem load_failure_leaves_jar:
  "(fst (mergeFrom P r (j, lg)) \<noteq> None \<longrightarrow>
      r = Invalid \<and> mergeFrom P r (j, lg) = (Some SyntaxError, j, lg)) \<and>
   (fst (snd (mergeFrom P r (j, lg))) \<noteq> j \<longrightarrow>
      (\<exists>data es. r = Doc data \<and> json_Unmarshal data = Some es \<and>
         mergeFrom P r (j, lg) = (None, merge P es j, lg))) \<and>
   (fst (load P sys j w) \<noteq> None \<longrightarrow>
      fst (snd (load P sys j w)) = j \<and> snd (snd (load P sys j w)) = w) \<and>
   (fst (load P sys j w) = Some SyntaxError \<longrightarrow> files w (filename j) = Some Invalid)"
proof (intro conjI impI)
  assume "fst (mergeFrom P r (j, lg)) \<noteq> None"
  then show "r = Invalid" "mergeFrom P r (j, lg) = (Some SyntaxError, j, lg)"
    by (auto simp add: mergeFrom_def split: content.splits option.splits)
next
  assume "fst (snd (mergeFrom P r (j, lg))) \<noteq> j"
  then show "\<exists>data es. r = Doc data \<and> json_Unmarshal data = Some es \<and>
         mergeFrom P r (j, lg) = (None, merge P es j, lg)"
    by (auto simp add: mergeFrom_def split: content.splits option.splits)
next
  assume e: "fst (load P sys j w) \<noteq> None"
  have m: "mergeFrom P c (j, logs w) = (Some y, j1, lg1) \<Longrightarrow> j1 = j \<and> lg1 = logs w"
    for c y j1 lg1
    by (auto simp add: mergeFrom_def split: content.splits option.splits)
  from e show "fst (snd (load P sys j w)) = j"
    by (auto simp add: load_def split: sum.splits option.splits if_splits prod.splits dest: m)
  from e show "snd (snd (load P sys j w)) = w"
    by (auto simp add: load_def split: sum.splits option.splits if_splits prod.splits dest: m)
next
  assume "fst (load P sys j w) = Some SyntaxError"
  then show "files w (filename j) = Some Invalid"
    by (auto simp add: load_def lockFile_cases mergeFrom_def lockNameFromPath_def Let_def
        split: sum.splits option.splits if_splits prod.splits content.splits)
qed

text \<open>Loading the file of bytes that are not JSON.\<close>

theorem load_failure_leaves_jar_witness:
  "fst (load examplePolicy osFine jarA brokenFile) = Some SyntaxError \<and>
   fst (snd (load examplePolicy osFine jarA brokenFile)) = jarA \<and>
   snd (snd (load examplePolicy osFine jarA brokenFile)) = brokenFile \<and>
   files brokenFile (filename jarA) = Some Invalid"
proof -
  have p: "filename jarA \<noteq> []" "\<not> lockHeld osFine" "\<not> openErr osFine"
    "files brokenFile (filename jarA) = Some Invalid"
    by (simp_all add: jarA_def osFine_def brokenFile_def)
  have "load examplePolicy osFine jarA brokenFile
      = (case mergeFrom examplePolicy Invalid (jarA, logs brokenFile) of
           (merr, j1, lg1) \<Rightarrow> (merr, j1, brokenFile\<lparr>logs := lg1\<rparr>))"
    using p by (intro load_ok)
  then have l: "fst (load examplePolicy osFine jarA brokenFile) = Some SyntaxError"
    by (simp add: mergeFrom_def)
  with load_failure_leaves_jar [of examplePolicy Invalid jarA "[]" osFine brokenFile]
  show ?thesis by simp
qed

subsection \<open>The written document when nothing is persistent\<close>

text \<open>
  C9. A fresh jar saved where no file exists: \<^verbatim>\<open>allPersistentEntries\<close> appends nothing,
  its slice stays nil, and the encoder writes \<^verbatim>\<open>null\<close> for a nil slice. The save
  succeeds and the file holds \<^verbatim>\<open>null\<close>, which is not a JSON array.
\<close>

theorem save_without_persistent_records_writes_null:
  "fst (save examplePolicy osFine 50 (newJar ''cookies'') noFiles) = None \<and>
   files (snd (snd (save examplePolicy osFine 50 (newJar ''cookies'') noFiles))) ''cookies''
     = Some (Doc JNull) \<and>
   allPersistentEntries (newJar ''cookies'') = None \<and>
   json_Marshal None = JNull"
proof -
  have p: "filename (newJar ''cookies'') \<noteq> []" "filename (newJar ''cookies'') = ''cookies''"
    by (simp_all add: newJar_def)
  have a: "allPersistentEntries (newJar ''cookies'') = None"
    by (simp add: allPersistentEntries_def newJar_def)
  have d: "deleteExpired 50 (newJar ''cookies'') = newJar ''cookies''"
    by (simp add: deleteExpired_def newJar_def)
  have "files (snd (snd (save examplePolicy osFine 50 (newJar ''cookies'') noFiles))) ''cookies''
     = Some (writeTo (deleteExpired 50 (merged examplePolicy (newJar ''cookies'') noFiles)))"
    using save_ok(3) [OF p(1) os_ok_osFine, of examplePolicy 50 noFiles] by (simp add: p(2))
  then have "files (snd (snd (save examplePolicy osFine 50 (newJar ''cookies'') noFiles))) ''cookies''
     = Some (Doc JNull)"
    by (simp add: merged_noFiles d writeTo_def a json_Marshal_def)
  with save_ok(1) [OF p(1) os_ok_osFine] a show ?thesis
    by (simp add: json_Marshal_def)
qed

subsection \<open>Merging lists of records\<close>











subsection \<open>Round trip\<close>





subsection \<open>No writer loses what was persisted before it started\<close>




end
